theory Spec2Isabelle
  imports Complex_Main "HOL-Library.Sublist"
begin

section \<open>Python sequence primitives\<close>

text \<open>
  Python's slice \<^verbatim>\<open>xs[i:j]\<close>: a negative bound counts from the end, every bound is
  clamped to the range of the sequence, and an upper bound below the lower one gives the
  empty sequence. Slicing never raises.
\<close>

definition py_bound :: "nat \<Rightarrow> int \<Rightarrow> nat" where
  "py_bound n i = (if i < 0 then nat (max 0 (int n + i)) else min n (nat i))"

definition py_slice :: "'a list \<Rightarrow> int \<Rightarrow> int \<Rightarrow> 'a list" where
  "py_slice xs i j =
     (let lo = py_bound (length xs) i; hi = py_bound (length xs) j
      in take (hi - lo) (drop lo xs))"

text \<open>\<^verbatim>\<open>xs[:j]\<close> and \<^verbatim>\<open>xs[i:]\<close>, the one-sided slices.\<close>

definition py_slice_to :: "'a list \<Rightarrow> int \<Rightarrow> 'a list" where
  "py_slice_to xs j = take (py_bound (length xs) j) xs"

definition py_slice_from :: "'a list \<Rightarrow> int \<Rightarrow> 'a list" where
  "py_slice_from xs i = drop (py_bound (length xs) i) xs"

section \<open>DocumentProcessor.chunk\_text\<close>

text \<open>
  \<^verbatim>\<open>
  def chunk_text(self, text, chunk_size=1000, overlap=200):
      chunks = []
      start = 0
      text_length = len(text)
      while start < text_length:
          end = start + chunk_size
          chunk = text[start:end]
          chunks.append(chunk)
          start = end - overlap
      return chunks
  \<close>
  The loop has no bound of its own, so it is a partial function: \<open>None\<close> is the run
  that never leaves the loop. \<open>chunk_size\<close> and \<open>overlap\<close> are Python integers
  and \<open>start\<close> may become negative, hence \<open>int\<close> throughout.
\<close>

partial_function (option) chunk_loop ::
  "string \<Rightarrow> int \<Rightarrow> int \<Rightarrow> string list \<Rightarrow> int \<Rightarrow> string list option" where
  "chunk_loop text chunk_size overlap chunks start =
     (if start < int (length text)
      then (let end = start + chunk_size;
                chunk = py_slice text start end
            in chunk_loop text chunk_size overlap (chunks @ [chunk]) (end - overlap))
      else Some chunks)"

declare chunk_loop.simps [code]

definition chunk_text :: "string \<Rightarrow> int \<Rightarrow> int \<Rightarrow> string list option" where
  "chunk_text text chunk_size overlap = chunk_loop text chunk_size overlap [] 0"


text \<open>
  The windows the loop visits, as a total function: it stops at once where the loop would
  not advance. It is the loop's result whenever \<open>overlap < chunk_size\<close>
  (lemma \<open>chunk_loop_windows\<close>) and is used to reason about it.
\<close>

function windows :: "'a list \<Rightarrow> int \<Rightarrow> int \<Rightarrow> int \<Rightarrow> 'a list list" where
  "windows text chunk_size overlap start =
     (if start < int (length text) \<and> overlap < chunk_size
      then py_slice text start (start + chunk_size)
             # windows text chunk_size overlap (start + chunk_size - overlap)
      else [])"
  by pat_completeness auto
termination
  by (relation "measure (\<lambda>(text, chunk_size, overlap, start). nat (int (length text) - start))")
    auto

declare windows.simps [simp del]

text \<open>
  The reconstruction the specification describes: the chunks concatenated, with the leading
  \<open>overlap\<close> characters (\<^verbatim>\<open>chunk[overlap:]\<close>) removed from every chunk after the first.
\<close>

definition remove_overlap :: "int \<Rightarrow> 'a list list \<Rightarrow> 'a list" where
  "remove_overlap overlap chunks =
     (case chunks of
        [] \<Rightarrow> []
      | c # rest \<Rightarrow> c @ concat (map (\<lambda>c. py_slice_from c overlap) rest))"

section \<open>Strings\<close>

text \<open>
  \<^verbatim>\<open>str.lower()\<close> on ASCII text, and the substring test \<^verbatim>\<open>needle in haystack\<close>.
\<close>

definition lower_char :: "char \<Rightarrow> char" where
  "lower_char c =
     (case map_of (zip ''ABCDEFGHIJKLMNOPQRSTUVWXYZ'' ''abcdefghijklmnopqrstuvwxyz'') c of
        Some d \<Rightarrow> d
      | None \<Rightarrow> c)"

definition lower :: "string \<Rightarrow> string" where
  "lower s = map lower_char s"

fun is_prefix :: "string \<Rightarrow> string \<Rightarrow> bool" where
  "is_prefix [] ys = True"
| "is_prefix (x # xs) [] = False"
| "is_prefix (x # xs) (y # ys) = (x = y \<and> is_prefix xs ys)"

fun py_in :: "string \<Rightarrow> string \<Rightarrow> bool" where
  "py_in needle [] = (needle = [])"
| "py_in needle (y # ys) = (is_prefix needle (y # ys) \<or> py_in needle ys)"

definition newline :: string where
  "newline = [CHR 0x0A]"

text \<open>\<^verbatim>\<open>str(n)\<close> for a natural number, as the f-strings print the source rank.\<close>

fun str_nat :: "nat \<Rightarrow> string" where
  "str_nat n =
     (if n < 10 then [''0123456789'' ! n]
      else str_nat (n div 10) @ [''0123456789'' ! (n mod 10)])"

declare str_nat.simps [simp del]

text \<open>
  \<^verbatim>\<open>os.path.basename\<close> and the extension part of \<^verbatim>\<open>os.path.splitext\<close> (POSIX): the
  extension starts at the last dot of the last path component, unless only dots precede it
  there.
\<close>

definition basename :: "string \<Rightarrow> string" where
  "basename p = rev (takeWhile (\<lambda>c. c \<noteq> CHR ''/'') (rev p))"

definition splitext_ext :: "string \<Rightarrow> string" where
  "splitext_ext p =
     (let name = basename p;
          upto_dot = dropWhile (\<lambda>c. c \<noteq> CHR ''.'') (rev name)
      in if upto_dot \<noteq> [] \<and> list_ex (\<lambda>c. c \<noteq> CHR ''.'') (tl upto_dot)
         then CHR ''.'' # rev (takeWhile (\<lambda>c. c \<noteq> CHR ''.'') (rev name))
         else [])"

section \<open>VectorStore\<close>

text \<open>
  A stored document is the dictionary \<^verbatim>\<open>{'content', 'source', 'chunk_id', 'metadata'}\<close>; a
  search result is the same dictionary with the key \<^verbatim>\<open>'similarity'\<close> added
  (\<^verbatim>\<open>{**self.documents[idx], 'similarity': similarities[idx]}\<close>). Similarities are
  floating-point numbers in the source and real numbers here.
\<close>

record metadata =
  file_type :: string
  is_default :: bool

record document =
  content :: string
  source :: string
  chunk_id :: nat
  metadata :: metadata

record search_result = document +
  similarity :: real

type_synonym embedding = "real list"

record vector_store =
  documents :: "document list"
  embeddings :: "embedding list"

text \<open>
  \<^verbatim>\<open>AzureEmbeddingModel\<close> is an external capability and a parameter of the model:
  \<open>get_embeddings\<close> maps a batch of texts to vectors, \<open>get_single_embedding\<close> maps one
  text to a vector or to nothing.
\<close>

record embedding_model =
  get_embeddings :: "string list \<Rightarrow> embedding list"
  get_single_embedding :: "string \<Rightarrow> embedding option"

text \<open>
  The store directory holds \<^verbatim>\<open>documents.pkl\<close> and \<^verbatim>\<open>embeddings.pkl\<close>. A file is absent,
  unreadable (\<^verbatim>\<open>pickle.load\<close> raises) or holds a pickled value. \<open>writable\<close> says
  whether \<^verbatim>\<open>save_store\<close> can write; when it cannot, the exception is logged and the
  files stay as they were.
\<close>

datatype 'a pickle_file = Missing | Corrupt | Pickled 'a

record storage =
  documents_pkl :: "document list pickle_file"
  embeddings_pkl :: "embedding list pickle_file"
  writable :: bool

datatype error = ValueError | IndexError

definition empty_store :: vector_store where
  "empty_store = \<lparr>documents = [], embeddings = []\<rparr>"

text \<open>
  \<^verbatim>\<open>
  def load_store(self):
      try:
          if os.path.exists(f"{self.store_path}/documents.pkl"):
              with open(f"{self.store_path}/documents.pkl", 'rb') as f:
                  self.documents = pickle.load(f)
              with open(f"{self.store_path}/embeddings.pkl", 'rb') as f:
                  self.embeddings = pickle.load(f)
      except Exception as e:
          logging.error(...)
  \<close>
  An exception leaves the fields assigned so far in place.
\<close>

definition load_store :: "storage \<Rightarrow> vector_store \<Rightarrow> vector_store" where
  "load_store st vs =
     (case documents_pkl st of
        Missing \<Rightarrow> vs
      | Corrupt \<Rightarrow> vs
      | Pickled docs \<Rightarrow>
          (let vs' = vs\<lparr>documents := docs\<rparr>
           in case embeddings_pkl st of
                Pickled embs \<Rightarrow> vs'\<lparr>embeddings := embs\<rparr>
              | _ \<Rightarrow> vs'))"

definition save_store :: "vector_store \<Rightarrow> storage \<Rightarrow> storage" where
  "save_store vs st =
     (if writable st
      then st\<lparr>documents_pkl := Pickled (documents vs), embeddings_pkl := Pickled (embeddings vs)\<rparr>
      else st)"

text \<open>
  \<^verbatim>\<open>
  def add_documents(self, documents):
      texts = [doc['content'] for doc in documents]
      embeddings = self.embedding_model.get_embeddings(texts)
      for doc, embedding in zip(documents, embeddings):
          self.documents.append(doc)
          self.embeddings.append(embedding)
      self.save_store()
  \<close>
\<close>

definition append_pair :: "vector_store \<Rightarrow> document \<times> embedding \<Rightarrow> vector_store" where
  "append_pair vs p =
     vs\<lparr>documents := documents vs @ [fst p], embeddings := embeddings vs @ [snd p]\<rparr>"

definition add_documents ::
  "embedding_model \<Rightarrow> vector_store \<Rightarrow> storage \<Rightarrow> document list \<Rightarrow> vector_store \<times> storage" where
  "add_documents em vs st docs =
     (let texts = map content docs;
          embs = get_embeddings em texts;
          vs' = foldl append_pair vs (zip docs embs)
      in (vs', save_store vs' st))"

text \<open>
  \<^verbatim>\<open>sklearn.metrics.pairwise.cosine_similarity([q], embeddings)[0]\<close>: each row is scaled by
  its Euclidean norm, a zero norm being replaced by 1, and the similarities are the dot
  products. It raises \<^verbatim>\<open>ValueError\<close> when there is no stored row or when a row's length
  differs from the query's.
\<close>

definition dot :: "embedding \<Rightarrow> embedding \<Rightarrow> real" where
  "dot x y = sum_list (map2 (*) x y)"

definition row_norm :: "embedding \<Rightarrow> real" where
  "row_norm x = (let n = sqrt (dot x x) in if n = 0 then 1 else n)"

definition cosine :: "embedding \<Rightarrow> embedding \<Rightarrow> real" where
  "cosine x y = dot x y / (row_norm x * row_norm y)"

definition cosine_similarity :: "embedding \<Rightarrow> embedding list \<Rightarrow> error + real list" where
  "cosine_similarity q embs =
     (if embs \<noteq> [] \<and> list_all (\<lambda>e. length e = length q) embs
      then Inr (map (cosine q) embs)
      else Inl ValueError)"

text \<open>
  \<^verbatim>\<open>np.argsort\<close> is a library function and a parameter \<open>argsort\<close> of the model. numpy
  documents that its result is a permutation of the indices that puts the values in
  ascending order; for the default sort kind it promises no order among equal values, and
  none is assumed here. \<open>sorts_ascending idxs xs\<close> says that \<open>idxs\<close> is such a result
  for \<open>xs\<close>.
\<close>

definition sorts_ascending :: "nat list \<Rightarrow> real list \<Rightarrow> bool" where
  "sorts_ascending idxs xs =
     (sort idxs = [0..<length xs] \<and> sorted (map (\<lambda>i. xs ! i) idxs))"

text \<open>
  One such function, used for the examples: the stable one, which leaves equal values in
  index order. On values that are pairwise distinct every ascending argsort returns the
  same indices, and on \<^verbatim>\<open>[1.0, 1.0]\<close> \<^verbatim>\<open>np.argsort\<close> returns \<^verbatim>\<open>[0, 1]\<close>, as this one does.
\<close>

definition stable_argsort :: "real list \<Rightarrow> nat list" where
  "stable_argsort xs = sort_key (\<lambda>i. xs ! i) [0..<length xs]"

text \<open>
  \<^verbatim>\<open>
  def search(self, query, top_k=5):
      if not self.documents:
          return []
      query_embedding = self.embedding_model.get_single_embedding(query)
      if not query_embedding:
          return []
      similarities = cosine_similarity([query_embedding], self.embeddings)[0]
      top_indices = np.argsort(similarities)[::-1][:top_k]
      results = []
      for idx in top_indices:
          results.append({**self.documents[idx], 'similarity': similarities[idx]})
      return results
  \<close>
  \<open>self.documents[idx]\<close> raises \<^verbatim>\<open>IndexError\<close> when there are fewer documents than
  embeddings, and so would \<open>similarities[idx]\<close> for an index out of range. The function
  reads the store and does not assign to it, so it has no store among its results.
\<close>

definition with_similarity :: "document \<Rightarrow> real \<Rightarrow> search_result" where
  "with_similarity d s =
     \<lparr>content = content d, source = source d, chunk_id = chunk_id d,
      metadata = metadata d, similarity = s\<rparr>"

fun collect_results :: "document list \<Rightarrow> real list \<Rightarrow> nat list \<Rightarrow> error + search_result list" where
  "collect_results docs similarities [] = Inr []"
| "collect_results docs similarities (idx # rest) =
     (if idx < length docs \<and> idx < length similarities
      then (case collect_results docs similarities rest of
              Inl e \<Rightarrow> Inl e
            | Inr results \<Rightarrow> Inr (with_similarity (docs ! idx) (similarities ! idx) # results))
      else Inl IndexError)"

definition top_indices :: "(real list \<Rightarrow> nat list) \<Rightarrow> real list \<Rightarrow> int \<Rightarrow> nat list" where
  "top_indices argsort similarities top_k = py_slice_to (rev (argsort similarities)) top_k"

definition search ::
  "(real list \<Rightarrow> nat list) \<Rightarrow> embedding_model \<Rightarrow> vector_store \<Rightarrow> string \<Rightarrow> int
     \<Rightarrow> error + search_result list" where
  "search argsort em vs query top_k =
     (if documents vs = [] then Inr []
      else case get_single_embedding em query of
        None \<Rightarrow> Inr []
      | Some query_embedding \<Rightarrow>
          if query_embedding = [] then Inr []
          else case cosine_similarity query_embedding (embeddings vs) of
            Inl e \<Rightarrow> Inl e
          | Inr similarities \<Rightarrow>
              collect_results (documents vs) similarities
                (top_indices argsort similarities top_k))"

text \<open>
  \<^verbatim>\<open>VectorStore.__init__\<close> starts from two empty lists, loads the store and, when no
  document was loaded, seeds it from the default report. \<open>default_text\<close> is what
  \<^verbatim>\<open>load_default_pdf\<close> returns: the text fetched over the network, or the empty string when
  the download or the parsing fails.
\<close>

definition default_source :: string where
  "default_source = ''Amazon-com-Inc-2023-Annual-Report.pdf''"

definition initialize_with_default ::
  "embedding_model \<Rightarrow> vector_store \<Rightarrow> storage \<Rightarrow> string \<Rightarrow> (vector_store \<times> storage) option" where
  "initialize_with_default em vs st default_text =
     (if default_text \<noteq> []
      then (case chunk_text default_text 1000 200 of
              None \<Rightarrow> None
            | Some chunks \<Rightarrow>
                Some (add_documents em vs st
                  (map (\<lambda>(i, chunk).
                       \<lparr>content = chunk, source = default_source, chunk_id = i,
                        metadata = \<lparr>file_type = ''pdf'', is_default = True\<rparr>\<rparr>)
                     (List.enumerate 0 chunks))))
      else Some (vs, st))"

definition VectorStore_init ::
  "embedding_model \<Rightarrow> storage \<Rightarrow> string \<Rightarrow> (vector_store \<times> storage) option" where
  "VectorStore_init em st default_text =
     (let vs = load_store st empty_store
      in if documents vs = [] then initialize_with_default em vs st default_text
         else Some (vs, st))"

section \<open>RAGSystem\<close>

definition financial_keywords :: "string list" where
  "financial_keywords =
     [''revenue'', ''income'', ''profit'', ''AWS'', ''segment'', ''growth'',
      ''earnings'', ''EBITDA'', ''cash flow'', ''operating'', ''margin'',
      ''investment'', ''shareholder'', ''dividend'', ''stock'', ''forecast'',
      ''guidance'', ''financial'', ''metrics'', ''quarterly'', ''annual'']"

text \<open>
  What the extractors see of the file system: whether a path exists, and what the PDF, DOCX
  and text readers return for it, \<open>None\<close> when opening or parsing raises. Each extractor
  catches every exception and returns the empty string then.
\<close>

record filesystem =
  path_exists :: "string \<Rightarrow> bool"
  pdf_pages :: "string \<Rightarrow> string list option"
  docx_paragraphs :: "string \<Rightarrow> string list option"
  txt_contents :: "string \<Rightarrow> string option"

definition extract_text_from_pdf :: "filesystem \<Rightarrow> string \<Rightarrow> string" where
  "extract_text_from_pdf fs file_path =
     (case pdf_pages fs file_path of
        None \<Rightarrow> []
      | Some pages \<Rightarrow> foldl (\<lambda>text page. text @ page @ newline) [] pages)"

definition extract_text_from_docx :: "filesystem \<Rightarrow> string \<Rightarrow> string" where
  "extract_text_from_docx fs file_path =
     (case docx_paragraphs fs file_path of
        None \<Rightarrow> []
      | Some paragraphs \<Rightarrow> foldl (\<lambda>text paragraph. text @ paragraph @ newline) [] paragraphs)"

definition extract_text_from_txt :: "filesystem \<Rightarrow> string \<Rightarrow> string" where
  "extract_text_from_txt fs file_path =
     (case txt_contents fs file_path of None \<Rightarrow> [] | Some text \<Rightarrow> text)"

text \<open>
  \<^verbatim>\<open>
  def process_and_store_documents(self, file_paths):
      documents = []
      for file_path in file_paths:
          if not os.path.exists(file_path):
              continue
          file_ext = os.path.splitext(file_path)[1].lower()
          if file_ext == '.pdf':    text = ...extract_text_from_pdf(file_path)
          elif file_ext == '.docx': text = ...extract_text_from_docx(file_path)
          elif file_ext == '.txt':  text = ...extract_text_from_txt(file_path)
          else:
              continue
          chunks = self.document_processor.chunk_text(text)
          for i, chunk in enumerate(chunks):
              documents.append({'content': chunk, 'source': file_path, 'chunk_id': i,
                                'metadata': {'file_type': file_ext, 'is_default': False}})
      self.vector_store.add_documents(documents)
      return len(documents)
  \<close>
\<close>

definition file_documents :: "string \<Rightarrow> string \<Rightarrow> string list \<Rightarrow> document list" where
  "file_documents file_path file_ext chunks =
     map (\<lambda>(i, chunk).
            \<lparr>content = chunk, source = file_path, chunk_id = i,
             metadata = \<lparr>file_type = file_ext, is_default = False\<rparr>\<rparr>)
         (List.enumerate 0 chunks)"

definition extract_text :: "filesystem \<Rightarrow> string \<Rightarrow> string option" where
  "extract_text fs file_path =
     (let file_ext = lower (splitext_ext file_path)
      in if file_ext = ''.pdf'' then Some (extract_text_from_pdf fs file_path)
         else if file_ext = ''.docx'' then Some (extract_text_from_docx fs file_path)
         else if file_ext = ''.txt'' then Some (extract_text_from_txt fs file_path)
         else None)"

fun process_files :: "filesystem \<Rightarrow> string list \<Rightarrow> document list \<Rightarrow> document list option" where
  "process_files fs [] docs = Some docs"
| "process_files fs (file_path # rest) docs =
     (if \<not> path_exists fs file_path then process_files fs rest docs
      else case extract_text fs file_path of
        None \<Rightarrow> process_files fs rest docs
      | Some text \<Rightarrow>
          (case chunk_text text 1000 200 of
             None \<Rightarrow> None
           | Some chunks \<Rightarrow>
               process_files fs rest
                 (docs @ file_documents file_path (lower (splitext_ext file_path)) chunks)))"

definition process_and_store_documents ::
  "embedding_model \<Rightarrow> filesystem \<Rightarrow> vector_store \<Rightarrow> storage \<Rightarrow> string list
     \<Rightarrow> (vector_store \<times> storage \<times> nat) option" where
  "process_and_store_documents em fs vs st file_paths =
     (case process_files fs file_paths [] of
        None \<Rightarrow> None
      | Some docs \<Rightarrow>
          (let (vs', st') = add_documents em vs st docs
           in Some (vs', st', length docs)))"

text \<open>
  \<^verbatim>\<open>
  def retrieve_relevant_context(self, query, top_k=3):
      results = self.vector_store.search(query, top_k)
      if not results:
          return "", False
      is_financial = any(keyword in query.lower() for keyword in self.financial_keywords)
      context = "Relevant information from documents:\n\n"
      for i, result in enumerate(results, 1):
          source_name = os.path.basename(result['source'])
          context += f"Source {i} (from {source_name}):\n"
          context += f"{result['content']}\n\n"
      return context, is_financial
  \<close>
\<close>

definition is_financial_query :: "string \<Rightarrow> bool" where
  "is_financial_query query = list_ex (\<lambda>keyword. py_in keyword (lower query)) financial_keywords"

definition format_context :: "search_result list \<Rightarrow> string" where
  "format_context results =
     foldl (\<lambda>text (i, result).
              text @ ''Source '' @ str_nat i @ '' (from '' @ basename (source result) @ ''):''
                @ newline @ content result @ newline @ newline)
           (''Relevant information from documents:'' @ newline @ newline)
           (List.enumerate 1 results)"

definition retrieve_relevant_context ::
  "(real list \<Rightarrow> nat list) \<Rightarrow> embedding_model \<Rightarrow> vector_store \<Rightarrow> string \<Rightarrow> int
     \<Rightarrow> error + string \<times> bool" where
  "retrieve_relevant_context argsort em vs query top_k =
     (case search argsort em vs query top_k of
        Inl e \<Rightarrow> Inl e
      | Inr results \<Rightarrow>
          if results = [] then Inr ([], False)
          else Inr (format_context results, is_financial_query query))"

section \<open>The orchestrator: generate\_response\<close>

definition web_search_indicators :: "string list" where
  "web_search_indicators =
     [''latest'', ''recent'', ''current'', ''news'', ''today'', ''2024'', ''2025'',
      ''what's happening'', ''breaking'', ''update'', ''trend'', ''stock price'',
      ''analyst'', ''rating'', ''target price'', ''Q1'', ''Q2'', ''Q3'', ''Q4'']"

definition should_use_web_search :: "string \<Rightarrow> bool" where
  "should_use_web_search prompt =
     list_ex (\<lambda>indicator. py_in indicator (lower prompt)) web_search_indicators"

text \<open>
  The part of \<^verbatim>\<open>generate_response\<close> that decides which tools are consulted:
  \<^verbatim>\<open>
  context = ""; sources = []; needs_web_search = False
  if use_rag:
      rag_context, is_financial = st.session_state.rag_system.retrieve_relevant_context(prompt)
      if rag_context:
          context += rag_context
          if "Amazon-com-Inc-2023-Annual-Report.pdf" in rag_context:
              sources.append("Amazon 2023 Annual Report")
          else:
              sources.append("Uploaded Documents")
      if is_financial and not rag_context:
          needs_web_search = True
  if use_web_search and (needs_web_search or should_use_web_search(prompt)):
      search_results = st.session_state.web_search.search(prompt)
      ...
  \<close>
  The record holds the context and the attribution gathered from retrieval, the flag, and
  whether the web search is called. An exception of the retrieval is not caught here.
\<close>

datatype attribution = Default_Report | Uploaded_Documents

record tool_use =
  rag_context :: string
  rag_sources :: "attribution list"
  needs_web_search :: bool
  web_search_called :: bool

definition generate_response ::
  "(real list \<Rightarrow> nat list) \<Rightarrow> embedding_model \<Rightarrow> vector_store \<Rightarrow> string \<Rightarrow> bool \<Rightarrow> bool
     \<Rightarrow> error + tool_use" where
  "generate_response argsort em vs prompt use_rag use_web_search =
     (if use_rag
      then (case retrieve_relevant_context argsort em vs prompt 3 of
              Inl e \<Rightarrow> Inl e
            | Inr (context, is_financial) \<Rightarrow>
                (let sources =
                       (if context \<noteq> []
                        then [if py_in default_source context then Default_Report
                              else Uploaded_Documents]
                        else []);
                     needs = (is_financial \<and> context = [])
                 in Inr \<lparr>rag_context = context, rag_sources = sources,
                         needs_web_search = needs,
                         web_search_called =
                           (use_web_search \<and> (needs \<or> should_use_web_search prompt))\<rparr>))
      else Inr \<lparr>rag_context = [], rag_sources = [], needs_web_search = False,
                web_search_called = (use_web_search \<and> should_use_web_search prompt)\<rparr>)"

section \<open>The specification's matchers\<close>

text \<open>
  The specification's classifiers, in its words: a keyword matches when it occurs in the
  query as a substring, letter case ignored.
\<close>

definition occurs_ignoring_case :: "string \<Rightarrow> string \<Rightarrow> bool" where
  "occurs_ignoring_case keyword query = py_in (lower keyword) (lower query)"

definition spec_is_financial :: "string \<Rightarrow> bool" where
  "spec_is_financial query = list_ex (\<lambda>keyword. occurs_ignoring_case keyword query) financial_keywords"

definition spec_lexical_trigger :: "string \<Rightarrow> bool" where
  "spec_lexical_trigger query =
     list_ex (\<lambda>indicator. occurs_ignoring_case indicator query) web_search_indicators"

section \<open>Properties of the store and of a batch\<close>

text \<open>
  The two parallel sequences of a store have the same length; the persisted pair can be
  loaded as a whole and has sequences of the same length, or there is no readable
  \<^verbatim>\<open>documents.pkl\<close> and nothing is loaded.
\<close>

definition lockstep :: "vector_store \<Rightarrow> bool" where
  "lockstep vs = (length (documents vs) = length (embeddings vs))"

definition persisted_in_lockstep :: "storage \<Rightarrow> bool" where
  "persisted_in_lockstep st =
     (case documents_pkl st of
        Pickled docs \<Rightarrow>
          (case embeddings_pkl st of Pickled embs \<Rightarrow> length docs = length embs | _ \<Rightarrow> False)
      | _ \<Rightarrow> True)"

text \<open>
  A file of a batch is processed successfully when it exists, its extension is one of the
  three supported ones and the reader for that extension returns its contents.
  \<open>chunk_count_of\<close> is the number of chunks \<open>chunk_text\<close> makes of its text.
\<close>

definition extraction_succeeds :: "filesystem \<Rightarrow> string \<Rightarrow> bool" where
  "extraction_succeeds fs file_path =
     (let file_ext = lower (splitext_ext file_path)
      in path_exists fs file_path \<and>
         (if file_ext = ''.pdf'' then pdf_pages fs file_path \<noteq> None
          else if file_ext = ''.docx'' then docx_paragraphs fs file_path \<noteq> None
          else if file_ext = ''.txt'' then txt_contents fs file_path \<noteq> None
          else False))"

definition chunk_count_of :: "filesystem \<Rightarrow> string \<Rightarrow> nat" where
  "chunk_count_of fs file_path =
     (case extract_text fs file_path of
        None \<Rightarrow> 0
      | Some text \<Rightarrow>
          (case chunk_text text 1000 200 of None \<Rightarrow> 0 | Some chunks \<Rightarrow> length chunks))"

section \<open>Example data\<close>

text \<open>
  Two documents, an embedding provider that maps every text to the same unit vector (and
  the empty query to no vector), and the store obtained by adding the two documents, in this
  order, to an empty store.
\<close>

definition doc_a :: document where
  "doc_a = \<lparr>content = ''net sales'', source = ''./temp/a.txt'', chunk_id = 0,
            metadata = \<lparr>file_type = ''.txt'', is_default = False\<rparr>\<rparr>"

definition doc_b :: document where
  "doc_b = \<lparr>content = ''net sales'', source = ''./temp/b.txt'', chunk_id = 0,
            metadata = \<lparr>file_type = ''.txt'', is_default = False\<rparr>\<rparr>"

definition const_model :: embedding_model where
  "const_model =
     \<lparr>get_embeddings = map (\<lambda>t. [1, 0]),
      get_single_embedding = (\<lambda>q. if q = [] then None else Some [1, 0])\<rparr>"

definition blank_storage :: storage where
  "blank_storage = \<lparr>documents_pkl = Missing, embeddings_pkl = Missing, writable = True\<rparr>"

definition tied_store :: vector_store where
  "tied_store = fst (add_documents const_model empty_store blank_storage [doc_a, doc_b])"

text \<open>
  A second provider, which embeds three texts along different directions, and the store
  obtained by adding three documents to an empty store: their similarities to the query
  embedding \<open>[1, 0]\<close> are 0, 1 and -1, in the order of insertion.
\<close>

definition doc_c :: document where
  "doc_c = \<lparr>content = ''operating income'', source = ''./temp/c.txt'', chunk_id = 0,
            metadata = \<lparr>file_type = ''.txt'', is_default = False\<rparr>\<rparr>"

definition doc_d :: document where
  "doc_d = \<lparr>content = ''free cash flow'', source = ''./temp/d.txt'', chunk_id = 0,
            metadata = \<lparr>file_type = ''.txt'', is_default = False\<rparr>\<rparr>"

definition axis_model :: embedding_model where
  "axis_model =
     \<lparr>get_embeddings =
        map (\<lambda>t. if t = ''net sales'' then [0, 1]
                 else if t = ''operating income'' then [1, 0] else [- 1, 0]),
      get_single_embedding = (\<lambda>q. if q = [] then None else Some [1, 0])\<rparr>"

definition ranked_store :: vector_store where
  "ranked_store = fst (add_documents axis_model empty_store blank_storage [doc_a, doc_c, doc_d])"

text \<open>
  A persisted pair with two documents and one embedding, and a batch directory with two
  readable files and a PDF that the reader rejects.
\<close>

definition mismatched_storage :: storage where
  "mismatched_storage =
     \<lparr>documents_pkl = Pickled [doc_a, doc_b], embeddings_pkl = Pickled [[1, 0]],
      writable = True\<rparr>"

definition batch_fs :: filesystem where
  "batch_fs =
     \<lparr>path_exists = (\<lambda>p. p \<in> set [''./temp/a.txt'', ''./temp/b.pdf'', ''./temp/c.docx'']),
      pdf_pages = (\<lambda>p. None),
      docx_paragraphs = (\<lambda>p. if p = ''./temp/c.docx'' then Some [''operating income''] else None),
      txt_contents = (\<lambda>p. if p = ''./temp/a.txt'' then Some ''net sales'' else None)\<rparr>"

section \<open>Chunking: termination, chunk count, reconstruction\<close>

lemma chunk_loop_windows:
  "overlap < chunk_size \<Longrightarrow>
   chunk_loop text chunk_size overlap chunks start =
     Some (chunks @ windows text chunk_size overlap start)"
proof (induction "text" chunk_size overlap start arbitrary: chunks rule: windows.induct)
  case (1 t chunk_size overlap start)
  show ?case
  proof (cases "start < int (length t)")
    case True
    with 1 show ?thesis
      by (subst chunk_loop.simps, subst windows.simps) (simp add: Let_def)
  next
    case False
    then show ?thesis
      by (subst chunk_loop.simps, subst windows.simps) simp
  qed
qed

lemma chunk_text_windows:
  "overlap < chunk_size \<Longrightarrow>
   chunk_text text chunk_size overlap = Some (windows text chunk_size overlap 0)"
  by (simp add: chunk_text_def chunk_loop_windows)

lemma chunk_text_default:
  "chunk_text text 1000 200 = Some (windows text 1000 200 0)"
  by (rule chunk_text_windows) simp

lemma chunk_text_empty: "chunk_text [] chunk_size overlap = Some []"
  by (simp add: chunk_text_def chunk_loop.simps)

text \<open>
  Where \<open>chunk_size \<le> overlap\<close> the next start is not beyond the current one, so a loop that
  has entered its body never leaves it.
\<close>

lemma chunk_loop_diverges:
  assumes "chunk_loop text chunk_size overlap chunks start = Some y"
  shows "\<not> (chunk_size \<le> overlap \<and> start < int (length text))"
proof (rule chunk_loop.raw_induct
    [where P = "\<lambda>t cs ov acc s r. \<not> (cs \<le> ov \<and> s < int (length t))", OF _ assms])
  fix f :: "string \<Rightarrow> int \<Rightarrow> int \<Rightarrow> string list \<Rightarrow> int \<Rightarrow> string list option"
  fix t cs ov acc s r
  assume IH: "\<And>t cs ov acc s r.
    f t cs ov acc s = Some r \<Longrightarrow> \<not> (cs \<le> ov \<and> s < int (length t))"
  assume body: "(if s < int (length t)
      then (let end = s + cs; chunk = py_slice t s end in f t cs ov (acc @ [chunk]) (end - ov))
      else Some acc) = Some r"
  show "\<not> (cs \<le> ov \<and> s < int (length t))"
  proof
    assume a: "cs \<le> ov \<and> s < int (length t)"
    with body have "f t cs ov (acc @ [py_slice t s (s + cs)]) (s + cs - ov) = Some r"
      by (simp add: Let_def)
    from IH[OF this] a show False by simp
  qed
qed

lemma chunk_text_diverges:
  assumes "text \<noteq> []" "chunk_size \<le> overlap"
  shows "chunk_text text chunk_size overlap = None"
proof (cases "chunk_text text chunk_size overlap")
  case None
  then show ?thesis .
next
  case (Some y)
  then have "\<not> (chunk_size \<le> overlap \<and> 0 < int (length text))"
    unfolding chunk_text_def by (rule chunk_loop_diverges)
  with assms show ?thesis by simp
qed

lemma length_windows:
  "overlap < chunk_size \<Longrightarrow>
   int (length (windows text chunk_size overlap start)) =
     max 0 \<lceil>(real (length text) - real_of_int start) / real_of_int (chunk_size - overlap)\<rceil>"
proof (induction "text" chunk_size overlap start rule: windows.induct)
  case (1 t chunk_size overlap start)
  let ?d = "chunk_size - overlap"
  let ?a = "int (length t) - start"
  have d: "0 < ?d" using 1(2) by simp
  show ?case
  proof (cases "start < int (length t)")
    case True
    have step: "\<lceil>real_of_int ?a / real_of_int ?d\<rceil>
        = \<lceil>real_of_int (?a - ?d) / real_of_int ?d\<rceil> + 1"
    proof -
      have "real_of_int ?a / real_of_int ?d = real_of_int (?a - ?d) / real_of_int ?d + 1"
        using d by (simp add: field_simps)
      then show ?thesis by (metis ceiling_add_one)
    qed
    have pos: "0 < \<lceil>real_of_int ?a / real_of_int ?d\<rceil>"
      using True d by (simp add: ceiling_less_iff)
    from True 1 have "int (length (windows t chunk_size overlap start)) =
        1 + max 0 \<lceil>(real (length t) - real_of_int (start + chunk_size - overlap))
                    / real_of_int ?d\<rceil>"
      by (subst windows.simps) simp
    also have "real (length t) - real_of_int (start + chunk_size - overlap)
        = real_of_int (?a - ?d)"
      by simp
    also have "1 + max 0 \<lceil>real_of_int (?a - ?d) / real_of_int ?d\<rceil>
        = max 0 \<lceil>real_of_int ?a / real_of_int ?d\<rceil>"
      using step pos by linarith
    finally show ?thesis by simp
  next
    case False
    then have "real_of_int ?a / real_of_int ?d \<le> 0"
      using d by (simp add: divide_nonpos_pos)
    then have "\<lceil>real_of_int ?a / real_of_int ?d\<rceil> \<le> 0"
      by (simp add: ceiling_le_iff)
    with False show ?thesis
      by (subst windows.simps) simp
  qed
qed

lemma length_windows_0:
  assumes "overlap < chunk_size"
  shows "int (length (windows text chunk_size overlap 0)) =
     \<lceil>real (length text) / real_of_int (chunk_size - overlap)\<rceil>"
proof -
  have "0 \<le> real (length text) / real_of_int (chunk_size - overlap)"
    using assms by simp
  then have "0 \<le> \<lceil>real (length text) / real_of_int (chunk_size - overlap)\<rceil>"
    by linarith
  with length_windows[OF assms, of "text" 0] show ?thesis by simp
qed

lemma py_slice_window:
  assumes "0 \<le> i" "0 \<le> c"
  shows "py_slice xs i (i + c) = take (nat c) (drop (nat i) xs)"
proof (cases "nat i < length xs")
  case True
  with assms have "py_bound (length xs) (i + c) - py_bound (length xs) i
      = min (length xs - nat i) (nat c)"
    by (simp add: py_bound_def nat_add_distrib min_def)
  moreover from True assms have "py_bound (length xs) i = nat i"
    by (simp add: py_bound_def)
  ultimately show ?thesis
    by (simp add: py_slice_def Let_def min_def)
next
  case False
  with assms show ?thesis
    by (simp add: py_slice_def py_bound_def Let_def)
qed

lemma py_slice_from_nonneg: "0 \<le> i \<Longrightarrow> py_slice_from xs i = drop (nat i) xs"
  by (simp add: py_slice_from_def py_bound_def min_def)

lemma concat_windows:
  "0 \<le> overlap \<Longrightarrow> overlap < chunk_size \<Longrightarrow> 0 \<le> start \<Longrightarrow>
   concat (map (\<lambda>c. py_slice_from c overlap) (windows text chunk_size overlap start))
     = drop (nat (start + overlap)) text"
proof (induction "text" chunk_size overlap start rule: windows.induct)
  case (1 t chunk_size overlap start)
  show ?case
  proof (cases "start < int (length t)")
    case True
    have IH: "concat (map (\<lambda>c. py_slice_from c overlap)
                 (windows t chunk_size overlap (start + chunk_size - overlap)))
              = drop (nat (start + chunk_size)) t"
      using 1 True by simp
    have first: "py_slice_from (py_slice t start (start + chunk_size)) overlap
        = take (nat (chunk_size - overlap)) (drop (nat (start + overlap)) t)"
    proof -
      have "py_slice t start (start + chunk_size) = take (nat chunk_size) (drop (nat start) t)"
        using 1(2-4) by (intro py_slice_window) simp_all
      moreover have "nat chunk_size - nat overlap = nat (chunk_size - overlap)"
        using 1(2,3) by linarith
      moreover have "nat overlap + nat start = nat (start + overlap)"
        using 1(2,4) by linarith
      ultimately show ?thesis
        using 1(2) by (simp add: py_slice_from_nonneg drop_take)
    qed
    have "nat (start + chunk_size) = nat (chunk_size - overlap) + nat (start + overlap)"
      using 1(2-4) by linarith
    then have rest: "drop (nat (start + chunk_size)) t
        = drop (nat (chunk_size - overlap)) (drop (nat (start + overlap)) t)"
      by simp
    have "concat (map (\<lambda>c. py_slice_from c overlap) (windows t chunk_size overlap start))
        = py_slice_from (py_slice t start (start + chunk_size)) overlap
          @ concat (map (\<lambda>c. py_slice_from c overlap)
              (windows t chunk_size overlap (start + chunk_size - overlap)))"
      using True 1(3) by (subst windows.simps) simp
    also have "\<dots> = take (nat (chunk_size - overlap)) (drop (nat (start + overlap)) t)
          @ drop (nat (chunk_size - overlap)) (drop (nat (start + overlap)) t)"
      by (simp only: IH first rest)
    also have "\<dots> = drop (nat (start + overlap)) t"
      by (rule append_take_drop_id)
    finally show ?thesis .
  next
    case False
    with 1(2) show ?thesis
      by (subst windows.simps) simp
  qed
qed

lemma remove_overlap_windows:
  assumes "0 \<le> overlap" "overlap < chunk_size"
  shows "remove_overlap overlap (windows text chunk_size overlap 0) = text"
proof (cases "text = []")
  case True
  then show ?thesis
    by (subst windows.simps) (simp add: remove_overlap_def)
next
  case False
  have "windows text chunk_size overlap 0 =
      py_slice text 0 (0 + chunk_size) # windows text chunk_size overlap (chunk_size - overlap)"
    using False assms by (subst windows.simps) simp
  moreover have "py_slice text 0 (0 + chunk_size) = take (nat chunk_size) text"
    using assms by (subst py_slice_window) simp_all
  moreover have "concat (map (\<lambda>c. py_slice_from c overlap)
        (windows text chunk_size overlap (chunk_size - overlap))) = drop (nat chunk_size) text"
    using assms concat_windows[of overlap chunk_size "chunk_size - overlap" "text"] by simp
  ultimately show ?thesis
    by (simp add: remove_overlap_def)
qed

text \<open>
  C2, as the specification states it: the number of chunks is
  \<open>ceil((len(text) - overlap) / (chunk_size - overlap))\<close>. It fails for the two-character
  text with \<open>chunk_size = 2\<close> and \<open>overlap = 1\<close>: the loop starts a window at every
  multiple of the step below the length of the text, here at 0 and at 1, and the formula
  gives one chunk.
\<close>

theorem chunk_text_count_spec_formula_fails:
  "chunk_text ''ab'' 2 1 = Some [''ab'', ''b'']
   \<and> int (length [''ab'', ''b'']) \<noteq> \<lceil>(real (length ''ab'') - 1) / (2 - 1)\<rceil>"
  by (simp add: chunk_text_def chunk_loop.simps py_slice_def py_bound_def)

text \<open>
  C2, amended: for \<open>chunk_size > overlap \<ge> 0\<close> chunking returns, and the number of chunks
  is \<open>ceil(len(text) / (chunk_size - overlap))\<close>; the empty text yields no chunk.
\<close>

theorem chunk_text_count:
  assumes "0 \<le> overlap" "overlap < chunk_size"
  shows "(\<exists>chunks. chunk_text text chunk_size overlap = Some chunks
            \<and> int (length chunks) = \<lceil>real (length text) / real_of_int (chunk_size - overlap)\<rceil>)
         \<and> chunk_text [] chunk_size overlap = Some []"
  using assms by (simp add: chunk_text_windows length_windows_0 chunk_text_empty)

theorem chunk_text_count_witness:
  "(0::int) \<le> 2 \<and> (2::int) < 4
   \<and> (\<exists>chunks. chunk_text ''abcdefghij'' 4 2 = Some chunks \<and> int (length chunks) = 5)"
  using chunk_text_count[of 2 4 "''abcdefghij''"] by simp

text \<open>
  C3: for \<open>chunk_size > overlap \<ge> 0\<close> chunking returns, and its chunks, concatenated with
  the leading \<open>overlap\<close> characters removed from every chunk after the first, are the text.
\<close>

theorem chunks_reconstruct_text:
  assumes "0 \<le> overlap" "overlap < chunk_size"
  shows "\<exists>chunks. chunk_text text chunk_size overlap = Some chunks
           \<and> remove_overlap overlap chunks = text"
  using assms by (simp add: chunk_text_windows remove_overlap_windows)

theorem chunks_reconstruct_text_witness:
  "(0::int) \<le> 2 \<and> (2::int) < 4
   \<and> (\<exists>chunks. chunk_text ''abcdefghij'' 4 2 = Some chunks
          \<and> remove_overlap 2 chunks = ''abcdefghij'')"
  using chunks_reconstruct_text[of 2 4 "''abcdefghij''"] by simp

text \<open>
  C7, as the specification states it: chunking guards \<open>overlap \<ge> chunk_size\<close> and
  terminates for every parameter pair. The loop has no such guard: on the one-character
  text with \<open>chunk_size = overlap = 1\<close> the start stays at 0 and the call never returns.
\<close>

theorem chunk_text_unguarded:
  "chunk_text ''a'' 1 1 = None"
  by (rule chunk_text_diverges) simp_all

text \<open>
  C7, amended: chunking returns for every text whenever \<open>overlap < chunk_size\<close>.
\<close>

theorem chunk_text_terminates:
  assumes "overlap < chunk_size"
  shows "\<exists>chunks. chunk_text text chunk_size overlap = Some chunks"
  using assms by (simp add: chunk_text_windows)

theorem chunk_text_terminates_witness:
  "(200::int) < 1000 \<and> (\<exists>chunks. chunk_text ''quarterly report'' 1000 200 = Some chunks)"
  using chunk_text_terminates[of 200 1000 "''quarterly report''"] by simp

section \<open>Search: ranking and result count\<close>

lemma collect_results_map:
  "\<forall>i\<in>set idxs. i < length docs \<and> i < length sims \<Longrightarrow>
   collect_results docs sims idxs = Inr (map (\<lambda>i. with_similarity (docs ! i) (sims ! i)) idxs)"
  by (induction idxs) simp_all

lemma sorts_ascending_set: "sorts_ascending idxs xs \<Longrightarrow> set idxs = {0..<length xs}"
proof -
  assume "sorts_ascending idxs xs"
  then have "set (sort idxs) = set [0..<length xs]"
    by (simp add: sorts_ascending_def)
  then show ?thesis by simp
qed

lemma sorts_ascending_distinct: "sorts_ascending idxs xs \<Longrightarrow> distinct idxs"
proof -
  assume "sorts_ascending idxs xs"
  then have "distinct (sort idxs)"
    by (simp add: sorts_ascending_def)
  then show ?thesis by simp
qed

lemma sorts_ascending_length: "sorts_ascending idxs xs \<Longrightarrow> length idxs = length xs"
proof -
  assume "sorts_ascending idxs xs"
  then have "length (sort idxs) = length [0..<length xs]"
    by (simp add: sorts_ascending_def)
  then show ?thesis by simp
qed

lemma sorts_ascending_sorted:
  "sorts_ascending idxs xs \<Longrightarrow> sorted (map (\<lambda>i. xs ! i) idxs)"
  by (simp add: sorts_ascending_def)

lemma stable_argsort_sorts: "sorts_ascending (stable_argsort xs) xs"
proof -
  have "sort (stable_argsort xs) = [0..<length xs]"
    by (rule sorted_distinct_set_unique) (simp_all add: stable_argsort_def)
  then show ?thesis
    by (simp add: sorts_ascending_def) (simp add: stable_argsort_def)
qed

lemma descending_rev:
  assumes "sorts_ascending idxs xs"
  shows "sorted_wrt (\<ge>) (map (\<lambda>i. xs ! i) (rev idxs))"
proof -
  have "sorted_wrt (\<ge>) (rev (map (\<lambda>i. xs ! i) idxs))"
    using sorts_ascending_sorted[OF assms] by (simp add: sorted_wrt_rev)
  then show ?thesis by (simp add: rev_map)
qed

lemma top_indices_take:
  assumes "sorts_ascending (argsort xs) xs"
  shows "top_indices argsort xs top_k = take (py_bound (length xs) top_k) (rev (argsort xs))"
  by (simp add: top_indices_def py_slice_to_def sorts_ascending_length[OF assms])

lemma length_top_indices:
  assumes "sorts_ascending (argsort xs) xs"
  shows "length (top_indices argsort xs top_k) = py_bound (length xs) top_k"
  by (simp add: top_indices_take[where argsort = argsort and xs = xs, OF assms] sorts_ascending_length[OF assms] py_bound_def)

lemma distinct_top_indices:
  assumes "sorts_ascending (argsort xs) xs"
  shows "distinct (top_indices argsort xs top_k)"
  by (simp add: top_indices_take[where argsort = argsort and xs = xs, OF assms] sorts_ascending_distinct[OF assms])

lemma set_top_indices:
  assumes "sorts_ascending (argsort xs) xs"
  shows "set (top_indices argsort xs top_k) \<subseteq> {0..<length xs}"
proof -
  have "set (top_indices argsort xs top_k) \<subseteq> set (rev (argsort xs))"
    unfolding top_indices_take[where argsort = argsort and xs = xs, OF assms] by (rule set_take_subset)
  then show ?thesis by (simp add: sorts_ascending_set[OF assms])
qed

lemma descending_top_indices:
  assumes "sorts_ascending (argsort xs) xs"
  shows "sorted_wrt (\<ge>) (map (\<lambda>i. xs ! i) (top_indices argsort xs top_k))"
  unfolding top_indices_take[where argsort = argsort and xs = xs, OF assms] take_map[symmetric]
  by (rule sorted_wrt_take) (rule descending_rev[OF assms])

lemma top_indices_dominate:
  assumes "sorts_ascending (argsort xs) xs"
    and "j < length xs" "j \<notin> set (top_indices argsort xs top_k)"
    and "i \<in> set (top_indices argsort xs top_k)"
  shows "xs ! j \<le> xs ! i"
proof -
  let ?r = "rev (argsort xs)"
  let ?m = "py_bound (length xs) top_k"
  have "j \<in> set ?r" using assms(2) by (simp add: sorts_ascending_set[OF assms(1)])
  then have "j \<in> set (take ?m ?r) \<union> set (drop ?m ?r)"
    by (metis append_take_drop_id set_append)
  with assms(3) have j: "j \<in> set (drop ?m ?r)" by (simp add: top_indices_take[where argsort = argsort and xs = xs, OF assms(1)])
  have i: "i \<in> set (take ?m ?r)" using assms(4) by (simp add: top_indices_take[where argsort = argsort and xs = xs, OF assms(1)])
  have "sorted_wrt (\<ge>) (map (\<lambda>i. xs ! i) (take ?m ?r @ drop ?m ?r))"
    using descending_rev[OF assms(1)] by simp
  then have "\<forall>a\<in>set (take ?m ?r). \<forall>b\<in>set (drop ?m ?r). xs ! a \<ge> xs ! b"
    unfolding map_append sorted_wrt_append by auto
  with i j show ?thesis by blast
qed

lemma search_ranked:
  assumes "documents vs \<noteq> []"
    and "length (embeddings vs) = length (documents vs)"
    and "\<forall>e\<in>set (embeddings vs). length e = length q"
    and "get_single_embedding em query = Some q" and "q \<noteq> []"
    and "sorts_ascending (argsort (map (cosine q) (embeddings vs))) (map (cosine q) (embeddings vs))"
  shows "search argsort em vs query top_k =
     Inr (map (\<lambda>i. with_similarity (documents vs ! i) (cosine q (embeddings vs ! i)))
            (top_indices argsort (map (cosine q) (embeddings vs)) top_k))"
proof -
  let ?sims = "map (cosine q) (embeddings vs)"
  have ne: "embeddings vs \<noteq> []" using assms(1,2) by auto
  have cs: "cosine_similarity q (embeddings vs) = Inr ?sims"
    using ne assms(3) by (simp add: cosine_similarity_def list_all_iff)
  have bound: "\<forall>i\<in>set (top_indices argsort ?sims top_k).
      i < length (documents vs) \<and> i < length ?sims"
    using set_top_indices[where argsort = argsort and xs = "?sims", OF assms(6), of top_k] assms(2) by auto
  have "search argsort em vs query top_k
      = collect_results (documents vs) ?sims (top_indices argsort ?sims top_k)"
    using assms(1,4,5) cs by (simp add: search_def)
  also have "\<dots> = Inr (map (\<lambda>i. with_similarity (documents vs ! i) (?sims ! i))
      (top_indices argsort ?sims top_k))"
    using bound by (rule collect_results_map)
  also have "map (\<lambda>i. with_similarity (documents vs ! i) (?sims ! i))
        (top_indices argsort ?sims top_k)
      = map (\<lambda>i. with_similarity (documents vs ! i) (cosine q (embeddings vs ! i)))
          (top_indices argsort ?sims top_k)"
    using bound by (intro map_cong) simp_all
  finally show ?thesis .
qed

lemma tied_store_eq:
  "tied_store = \<lparr>documents = [doc_a, doc_b], embeddings = [[1, 0], [1, 0]]\<rparr>"
  by (simp add: tied_store_def add_documents_def const_model_def append_pair_def empty_store_def
      doc_a_def doc_b_def Let_def)

lemma ranked_store_eq:
  "ranked_store =
     \<lparr>documents = [doc_a, doc_c, doc_d], embeddings = [[0, 1], [1, 0], [- 1, 0]]\<rparr>"
  by (simp add: ranked_store_def add_documents_def axis_model_def append_pair_def
      empty_store_def doc_a_def doc_c_def doc_d_def Let_def)

lemma cosine_unit: "cosine [1, 0] [1, 0] = 1"
  by (simp add: cosine_def dot_def row_norm_def)

lemma cosine_axes:
  "cosine [1, 0] [0, 1] = 0" "cosine [1, 0] [- 1, 0] = - 1"
  by (simp_all add: cosine_def dot_def row_norm_def)

lemma stable_argsort_tied: "stable_argsort [1, 1] = [0, 1]"
  by (simp add: stable_argsort_def upt_conv_Cons)

lemma stable_argsort_ranked: "stable_argsort [0, 1, - 1] = [2, 0, 1]"
  by (simp add: stable_argsort_def upt_conv_Cons)

lemma search_tied:
  "search stable_argsort const_model tied_store (c # cs) top_k =
     collect_results [doc_a, doc_b] [1, 1] (py_slice_to [1, 0] top_k)"
  by (simp add: search_def tied_store_eq const_model_def cosine_similarity_def cosine_unit
      top_indices_def stable_argsort_tied)

lemma search_ranked_store:
  "search stable_argsort axis_model ranked_store (c # cs) top_k =
     collect_results [doc_a, doc_c, doc_d] [0, 1, - 1] (py_slice_to [1, 0, 2] top_k)"
  by (simp add: search_def ranked_store_eq axis_model_def cosine_similarity_def cosine_unit
      cosine_axes top_indices_def stable_argsort_ranked)

lemma ranked_store_facts:
  "documents ranked_store \<noteq> []"
  "length (embeddings ranked_store) = length (documents ranked_store)"
  "\<forall>e\<in>set (embeddings ranked_store). length e = length [1, 0 :: real]"
  "get_single_embedding axis_model ''q'' = Some [1, 0]"
  "[1, 0 :: real] \<noteq> []"
  "map (cosine [1, 0]) (embeddings ranked_store) = [0, 1, - 1]"
  by (simp_all add: ranked_store_eq axis_model_def cosine_unit cosine_axes)

text \<open>
  C1, as the specification states it: of two stored records with equal similarity the one
  inserted earlier appears first. \<open>doc_a\<close> is added before \<open>doc_b\<close>, both have
  similarity 1 to the query, \<^verbatim>\<open>np.argsort\<close> returns the indices \<open>[0, 1]\<close> for the two
  equal similarities, and the search, which reverses them, returns \<open>doc_b\<close> first.
\<close>

theorem search_ties_latest_first:
  "stable_argsort [1, 1] = [0, 1]
   \<and> search stable_argsort const_model tied_store ''q'' 2
       = Inr [with_similarity doc_b 1, with_similarity doc_a 1]"
  by (simp add: search_tied stable_argsort_tied py_slice_to_def py_bound_def)

text \<open>
  C1, amended: on an index whose documents and embeddings are in lockstep and of the
  query embedding's dimension, and for \<open>top_k \<ge> 0\<close>, search returns \<open>min(top_k, N)\<close>
  distinct stored records, each with its cosine similarity to the query embedding, in
  descending order of similarity, and no record left out has a higher similarity than a
  record returned. This holds for every ascending \<open>argsort\<close>; nothing is promised about
  the order of records with equal similarity.
\<close>

theorem search_descending_top_k:
  assumes "documents vs \<noteq> []"
    and "length (embeddings vs) = length (documents vs)"
    and "\<forall>e\<in>set (embeddings vs). length e = length q"
    and "get_single_embedding em query = Some q" and "q \<noteq> []"
    and "sorts_ascending (argsort (map (cosine q) (embeddings vs))) (map (cosine q) (embeddings vs))"
    and "0 \<le> top_k"
  shows "\<exists>idxs results.
      search argsort em vs query top_k = Inr results
    \<and> results = map (\<lambda>i. with_similarity (documents vs ! i) (cosine q (embeddings vs ! i))) idxs
    \<and> distinct idxs \<and> set idxs \<subseteq> {0..<length (documents vs)}
    \<and> length idxs = min (nat top_k) (length (documents vs))
    \<and> sorted_wrt (\<ge>) (map similarity results)
    \<and> (\<forall>j<length (documents vs). j \<notin> set idxs \<longrightarrow>
          (\<forall>i\<in>set idxs. cosine q (embeddings vs ! j) \<le> cosine q (embeddings vs ! i)))"
proof -
  let ?sims = "map (cosine q) (embeddings vs)"
  let ?idxs = "top_indices argsort ?sims top_k"
  let ?results = "map (\<lambda>i. with_similarity (documents vs ! i) (cosine q (embeddings vs ! i))) ?idxs"
  have lt: "\<And>i. i \<in> set ?idxs \<Longrightarrow> i < length (embeddings vs)"
    using set_top_indices[where argsort = argsort and xs = "?sims", OF assms(6), of top_k] by auto
  have sims: "map similarity ?results = map (\<lambda>i. ?sims ! i) ?idxs"
    using lt by (simp add: with_similarity_def comp_def)
  have 1: "search argsort em vs query top_k = Inr ?results"
    using assms(1-6) by (rule search_ranked)
  have 2: "distinct ?idxs"
    by (rule distinct_top_indices[where argsort = argsort and xs = "?sims", OF assms(6)])
  have 3: "set ?idxs \<subseteq> {0..<length (documents vs)}"
    using set_top_indices[where argsort = argsort and xs = "?sims", OF assms(6), of top_k] assms(2) by simp
  have 4: "length ?idxs = min (nat top_k) (length (documents vs))"
    using assms(2,7) by (simp add: length_top_indices[where argsort = argsort and xs = "?sims", OF assms(6)] py_bound_def min.commute)
  have 5: "sorted_wrt (\<ge>) (map similarity ?results)"
    unfolding sims
    by (rule descending_top_indices[where argsort = argsort and xs = "?sims", OF assms(6)])
  have 6: "\<forall>j<length (documents vs). j \<notin> set ?idxs \<longrightarrow>
          (\<forall>i\<in>set ?idxs. cosine q (embeddings vs ! j) \<le> cosine q (embeddings vs ! i))"
  proof (intro allI impI ballI)
    fix j i
    assume j: "j < length (documents vs)" "j \<notin> set ?idxs" and i: "i \<in> set ?idxs"
    have "?sims ! j \<le> ?sims ! i"
      using j(2) i
      by (intro top_indices_dominate[where argsort = argsort and xs = "?sims" and top_k = top_k,
            OF assms(6)]) (use j(1) assms(2) in simp_all)
    with j(1) lt[OF i] assms(2) show "cosine q (embeddings vs ! j) \<le> cosine q (embeddings vs ! i)"
      by simp
  qed
  from 1 2 3 4 5 6 show ?thesis by blast
qed

theorem search_descending_top_k_witness:
  "documents ranked_store \<noteq> []
   \<and> length (embeddings ranked_store) = length (documents ranked_store)
   \<and> map length (embeddings ranked_store) = [length [1, 0 :: real], 2, 2]
   \<and> get_single_embedding axis_model ''q'' = Some [1, 0]
   \<and> map (cosine [1, 0]) (embeddings ranked_store) = [0, 1, - 1]
   \<and> sorts_ascending (stable_argsort [0, 1, - 1]) [0, 1, - 1]
   \<and> search stable_argsort axis_model ranked_store ''q'' 2
       = Inr [with_similarity doc_c 1, with_similarity doc_a 0]
   \<and> (\<exists>idxs results.
        search stable_argsort axis_model ranked_store ''q'' 2 = Inr results
      \<and> results = map (\<lambda>i. with_similarity (documents ranked_store ! i)
                              (cosine [1, 0] (embeddings ranked_store ! i))) idxs
      \<and> distinct idxs \<and> set idxs \<subseteq> {0..<length (documents ranked_store)}
      \<and> length idxs = min (nat 2) (length (documents ranked_store))
      \<and> sorted_wrt (\<ge>) (map similarity results)
      \<and> (\<forall>j<length (documents ranked_store). j \<notin> set idxs \<longrightarrow>
            (\<forall>i\<in>set idxs. cosine [1, 0] (embeddings ranked_store ! j)
                              \<le> cosine [1, 0] (embeddings ranked_store ! i))))"
proof -
  have s: "sorts_ascending (stable_argsort (map (cosine [1, 0]) (embeddings ranked_store)))
      (map (cosine [1, 0]) (embeddings ranked_store))"
    by (rule stable_argsort_sorts)
  have t: "(0::int) \<le> 2" by simp
  note T = search_descending_top_k[where argsort = stable_argsort and query = "''q''",
      OF ranked_store_facts(1-5) s t]
  have e: "search stable_argsort axis_model ranked_store ''q'' 2
      = Inr [with_similarity doc_c 1, with_similarity doc_a 0]"
    by (simp add: search_ranked_store py_slice_to_def py_bound_def)
  have l: "map length (embeddings ranked_store) = [length [1, 0 :: real], 2, 2]"
    by (simp add: ranked_store_eq)
  from s have s': "sorts_ascending (stable_argsort [0, 1, - 1]) [0, 1, - 1]"
    by (simp only: ranked_store_facts(6))
  from ranked_store_facts(1,2,4,6) l s' e T show ?thesis
    by (intro conjI)
qed



text \<open>
  C8: search returns the empty sequence, and raises nothing, when the index holds no
  document or when the provider returns no vector (\<open>None\<close> or an empty one) for the query.
\<close>

theorem search_no_data:
  assumes "documents vs = [] \<or> get_single_embedding em query = None
           \<or> get_single_embedding em query = Some []"
  shows "search argsort em vs query top_k = Inr []"
  using assms by (auto simp: search_def)

theorem search_no_data_witness:
  "documents empty_store = []
   \<and> search stable_argsort const_model empty_store ''revenue'' 5 = Inr []
   \<and> get_single_embedding const_model [] = None
   \<and> search stable_argsort const_model tied_store [] 5 = Inr []"
  using search_no_data[of empty_store const_model "''revenue''" stable_argsort 5]
    search_no_data[of tied_store const_model "[]" stable_argsort 5]
  by (simp add: empty_store_def const_model_def)

section \<open>The store's parallel sequences\<close>

lemma lockstep_append_pair: "lockstep vs \<Longrightarrow> lockstep (append_pair vs p)"
  by (simp add: lockstep_def append_pair_def)

lemma lockstep_foldl: "lockstep vs \<Longrightarrow> lockstep (foldl append_pair vs ps)"
  by (induction ps arbitrary: vs) (simp_all add: lockstep_append_pair)

lemma lockstep_add_documents:
  "lockstep vs \<Longrightarrow> lockstep (fst (add_documents em vs st docs))"
  by (simp add: add_documents_def Let_def lockstep_foldl)

lemma lockstep_empty_store: "lockstep empty_store"
  by (simp add: lockstep_def empty_store_def)

lemma lockstep_load_store:
  "lockstep vs \<Longrightarrow> persisted_in_lockstep st \<Longrightarrow> lockstep (load_store st vs)"
  by (auto simp: lockstep_def persisted_in_lockstep_def load_store_def Let_def
      split: pickle_file.splits)

lemma lockstep_init:
  assumes "persisted_in_lockstep st"
  shows "\<exists>vs' st'. VectorStore_init em st default_text = Some (vs', st') \<and> lockstep vs'"
proof -
  let ?vs = "load_store st empty_store"
  have l: "lockstep ?vs"
    using lockstep_empty_store assms by (rule lockstep_load_store)
  show ?thesis
  proof (cases "documents ?vs = [] \<and> default_text \<noteq> []")
    case True
    obtain docs where "initialize_with_default em ?vs st default_text
        = Some (add_documents em ?vs st docs)"
      using True by (simp add: initialize_with_default_def chunk_text_default)
    with True lockstep_add_documents[OF l, of em st docs] show ?thesis
      by (simp add: VectorStore_init_def Let_def) (metis prod.collapse)
  next
    case False
    with l show ?thesis
      by (auto simp: VectorStore_init_def Let_def initialize_with_default_def)
  qed
qed

text \<open>
  C4, as the specification states it: the constructor rejects or ignores a persisted pair
  whose sequences differ in length. \<open>load_store\<close> compares no lengths: from a pair of two
  documents and one embedding the constructor builds a store with exactly these, and does
  not seed it, since it holds documents.
\<close>

theorem load_accepts_mismatched_pair:
  "VectorStore_init const_model mismatched_storage [] =
     Some (\<lparr>documents = [doc_a, doc_b], embeddings = [[1, 0]]\<rparr>, mismatched_storage)
   \<and> \<not> lockstep \<lparr>documents = [doc_a, doc_b], embeddings = [[1, 0]]\<rparr>"
  by (simp add: VectorStore_init_def load_store_def mismatched_storage_def empty_store_def
      lockstep_def Let_def)

text \<open>
  C4, amended: \<open>len(documents) == len(embeddings)\<close> holds for the empty store, is kept
  by \<open>load_store\<close> and established by the constructor when the persisted pair is absent
  or loads as a whole with sequences of equal length, and is kept by every
  \<open>add_documents\<close>, whatever the embedding provider returns. \<open>search\<close> assigns to
  neither sequence.
\<close>

theorem store_lockstep:
  assumes "lockstep vs" and "persisted_in_lockstep st"
  shows "lockstep empty_store
       \<and> lockstep (load_store st vs)
       \<and> (\<exists>vs' st'. VectorStore_init em st default_text = Some (vs', st') \<and> lockstep vs')
       \<and> lockstep (fst (add_documents em vs st' docs))"
proof (intro conjI)
  show "lockstep empty_store" by (rule lockstep_empty_store)
  show "lockstep (load_store st vs)" using assms by (rule lockstep_load_store)
  show "\<exists>vs' st'. VectorStore_init em st default_text = Some (vs', st') \<and> lockstep vs'"
    using assms(2) by (rule lockstep_init)
  show "lockstep (fst (add_documents em vs st' docs))"
    using assms(1) by (rule lockstep_add_documents)
qed

theorem store_lockstep_witness:
  "lockstep tied_store \<and> persisted_in_lockstep blank_storage
   \<and> lockstep (load_store blank_storage tied_store)
   \<and> (\<exists>vs' st'. VectorStore_init const_model blank_storage ''Annual report'' = Some (vs', st')
          \<and> lockstep vs')
   \<and> lockstep (fst (add_documents const_model tied_store blank_storage [doc_a]))"
proof -
  have h: "lockstep tied_store" "persisted_in_lockstep blank_storage"
    by (simp_all add: tied_store_eq lockstep_def persisted_in_lockstep_def blank_storage_def)
  from store_lockstep[OF h, of const_model "''Annual report''" blank_storage "[doc_a]"] h
  show ?thesis by simp
qed


section \<open>Ingesting a batch of files\<close>

lemma length_file_documents: "length (file_documents file_path file_ext chunks) = length chunks"
  by (simp add: file_documents_def enumerate_eq_zip)

lemma failed_extraction_empty:
  assumes "path_exists fs file_path" "extract_text fs file_path = Some t"
    "\<not> extraction_succeeds fs file_path"
  shows "t = []"
  using assms
  by (auto simp: extract_text_def extraction_succeeds_def Let_def extract_text_from_pdf_def
      extract_text_from_docx_def extract_text_from_txt_def split: if_splits)

lemma unsupported_not_succeeds:
  "extract_text fs file_path = None \<Longrightarrow> \<not> extraction_succeeds fs file_path"
  by (auto simp: extract_text_def extraction_succeeds_def Let_def split: if_splits)

lemma missing_not_succeeds:
  "\<not> path_exists fs file_path \<Longrightarrow> \<not> extraction_succeeds fs file_path"
  by (simp add: extraction_succeeds_def Let_def)

lemma chunk_count_of_windows:
  "extract_text fs file_path = Some t \<Longrightarrow>
   chunk_count_of fs file_path = length (windows t 1000 200 0)"
  by (simp add: chunk_count_of_def chunk_text_default)

lemma windows_empty: "windows [] chunk_size overlap 0 = []"
  by (subst windows.simps) simp

lemma process_files_count:
  "\<exists>docs'. process_files fs file_paths docs = Some docs'
      \<and> length docs' = length docs
          + sum_list (map (\<lambda>p. if extraction_succeeds fs p then chunk_count_of fs p else 0)
              file_paths)"
proof (induction file_paths arbitrary: docs)
  case Nil
  show ?case by simp
next
  case (Cons p ps)
  show ?case
  proof (cases "path_exists fs p")
    case False
    with Cons[of docs] show ?thesis
      by (simp add: missing_not_succeeds)
  next
    case True
    show ?thesis
    proof (cases "extract_text fs p")
      case None
      with True Cons[of docs] show ?thesis
        by (simp add: unsupported_not_succeeds)
    next
      case (Some t)
      let ?new = "file_documents p (lower (splitext_ext p)) (windows t 1000 200 0)"
      have step: "process_files fs (p # ps) docs = process_files fs ps (docs @ ?new)"
        using True Some by (simp add: chunk_text_default)
      have len: "length ?new = (if extraction_succeeds fs p then chunk_count_of fs p else 0)"
      proof (cases "extraction_succeeds fs p")
        case True
        then show ?thesis
          by (simp add: length_file_documents chunk_count_of_windows[OF Some])
      next
        case False
        with \<open>path_exists fs p\<close> Some have "t = []" by (intro failed_extraction_empty)
        with False show ?thesis
          by (simp add: length_file_documents windows_empty)
      qed
      from Cons[of "docs @ ?new"] step len show ?thesis
        by auto
    qed
  qed
qed

lemma sum_list_filter_zero:
  "sum_list (map (\<lambda>x. if P x then f x else (0::nat)) xs) = sum_list (map f (filter P xs))"
  by (induction xs) simp_all

lemma batch_fs_succeeds:
  "extraction_succeeds batch_fs ''./temp/a.txt''"
  "\<not> extraction_succeeds batch_fs ''./temp/b.pdf''"
  "extraction_succeeds batch_fs ''./temp/c.docx''"
  by code_simp+

lemma batch_fs_counts:
  "chunk_count_of batch_fs ''./temp/a.txt'' = 1"
  "chunk_count_of batch_fs ''./temp/c.docx'' = 1"
  by code_simp+

text \<open>
  C9: for every batch, \<open>process_and_store_documents\<close> returns (it neither raises nor
  stops at a file that is missing, unsupported or unreadable), and the count it returns is
  the total number of chunks of the files whose extraction succeeds. In the batch of three
  files below the PDF is unreadable and the count is that of the two other files.
\<close>

theorem ingest_counts_successful_files:
  "\<exists>vs' st'.
     process_and_store_documents em fs vs st file_paths =
       Some (vs', st',
             sum_list (map (chunk_count_of fs) (filter (extraction_succeeds fs) file_paths)))"
proof -
  obtain docs where d: "process_files fs file_paths [] = Some docs"
    "length docs = sum_list (map (\<lambda>p. if extraction_succeeds fs p then chunk_count_of fs p else 0)
        file_paths)"
    using process_files_count[of fs file_paths "[]"] by auto
  then show ?thesis
    by (simp add: process_and_store_documents_def sum_list_filter_zero split: prod.splits)
qed

theorem ingest_counts_successful_files_witness:
  "filter (extraction_succeeds batch_fs) [''./temp/a.txt'', ''./temp/b.pdf'', ''./temp/c.docx'']
     = [''./temp/a.txt'', ''./temp/c.docx'']
   \<and> chunk_count_of batch_fs ''./temp/a.txt'' = 1
   \<and> chunk_count_of batch_fs ''./temp/c.docx'' = 1
   \<and> (\<exists>vs' st'.
        process_and_store_documents const_model batch_fs empty_store blank_storage
          [''./temp/a.txt'', ''./temp/b.pdf'', ''./temp/c.docx''] = Some (vs', st', 2))"
  using ingest_counts_successful_files[of const_model batch_fs empty_store blank_storage
      "[''./temp/a.txt'', ''./temp/b.pdf'', ''./temp/c.docx'']"]
  by (simp add: batch_fs_succeeds batch_fs_counts numeral_2_eq_2)


section \<open>Financial classification\<close>

lemma is_prefix_prefix: "is_prefix xs ys = prefix xs ys"
  by (induction xs ys rule: is_prefix.induct) simp_all

lemma py_in_sublist: "py_in xs ys = sublist xs ys"
  by (induction ys) (simp_all add: is_prefix_prefix sublist_Cons_right)

lemma retrieve_with_results:
  "search argsort em vs query top_k = Inr results \<Longrightarrow> results \<noteq> [] \<Longrightarrow>
   retrieve_relevant_context argsort em vs query top_k
     = Inr (format_context results, is_financial_query query)"
  by (simp add: retrieve_relevant_context_def)

lemma retrieve_without_results:
  "search argsort em vs query top_k = Inr [] \<Longrightarrow>
   retrieve_relevant_context argsort em vs query top_k = Inr ([], False)"
  by (simp add: retrieve_relevant_context_def)

lemma search_tied_3:
  "search stable_argsort const_model tied_store (q # qs) 3
     = Inr [with_similarity doc_b 1, with_similarity doc_a 1]"
  by (simp add: search_tied py_slice_to_def py_bound_def)

lemma financial_examples:
  "is_financial_query ''What was AWS revenue growth?''"
  "\<not> is_financial_query ''What is the weather today?''"
  "\<not> is_financial_query ''AWS outage''"
  "spec_is_financial ''AWS outage''"
  "spec_is_financial ''revenue''"
  by code_simp+

lemma retrieve_spec_examples:
  "retrieve_relevant_context stable_argsort const_model tied_store ''What was AWS revenue growth?'' 3
     = Inr (format_context [with_similarity doc_b 1, with_similarity doc_a 1], True)"
  "retrieve_relevant_context stable_argsort const_model tied_store ''What is the weather today?'' 3
     = Inr (format_context [with_similarity doc_b 1, with_similarity doc_a 1], False)"
  by (simp_all add: retrieve_with_results[OF search_tied_3] financial_examples)

text \<open>
  C5: \<open>is_financial\<close> is true exactly when a keyword of the fixed set occurs in the query,
  letter case ignored, whether or not the search found anything. The two examples of the
  specification come out as it says (lemma \<open>retrieve_spec_examples\<close>), but the code
  departs from the claim at two places. The query is lowered and the keywords are not, so
  \<open>AWS\<close> and \<open>EBITDA\<close> match no query: \<open>AWS outage\<close> is not classified financial
  although results were found. And without results the function returns \<open>False\<close>
  before it looks at the query, as for \<open>revenue\<close> on the empty index; the caller's
  test \<^verbatim>\<open>is_financial and not rag_context\<close>, commented "a financial query but we didn't
  find good context", can then never hold (lemma \<open>needs_web_search_never_set\<close>).
\<close>

theorem retrieve_is_financial_misses:
  "spec_is_financial ''AWS outage''
   \<and> retrieve_relevant_context stable_argsort const_model tied_store ''AWS outage'' 3
       = Inr (format_context [with_similarity doc_b 1, with_similarity doc_a 1], False)
   \<and> spec_is_financial ''revenue''
   \<and> retrieve_relevant_context stable_argsort const_model empty_store ''revenue'' 3 = Inr ([], False)"
proof -
  have "search stable_argsort const_model empty_store ''revenue'' 3 = Inr []"
    by (simp add: search_def empty_store_def)
  then have "retrieve_relevant_context stable_argsort const_model empty_store ''revenue'' 3 = Inr ([], False)"
    by (rule retrieve_without_results)
  then show ?thesis
    by (simp add: retrieve_with_results[OF search_tied_3] financial_examples)
qed

section \<open>The web-search decision\<close>

lemma web_search_decision:
  assumes "generate_response argsort em vs prompt use_rag use_web_search = Inr t"
  shows "web_search_called t
     = (use_web_search \<and> (needs_web_search t \<or> should_use_web_search prompt))"
  using assms
  by (auto simp: generate_response_def Let_def split: if_splits sum.splits prod.splits)

lemma foldl_grows:
  assumes "\<And>acc x. length acc \<le> length (f acc x)"
  shows "length init \<le> length (foldl f init xs)"
proof (induction xs arbitrary: init)
  case Nil
  show ?case by simp
next
  case (Cons x xs)
  have "length init \<le> length (f init x)" by (rule assms)
  also have "\<dots> \<le> length (foldl f (f init x) xs)" by (rule Cons.IH)
  finally show ?case by simp
qed

lemma format_context_nonempty: "format_context results \<noteq> []"
proof -
  have "length (''Relevant information from documents:'' @ newline @ newline)
      \<le> length (format_context results)"
    unfolding format_context_def by (rule foldl_grows) (simp split: prod.splits)
  then show ?thesis by auto
qed

lemma needs_web_search_never_set:
  assumes "generate_response argsort em vs prompt use_rag use_web_search = Inr t"
  shows "\<not> needs_web_search t"
  using assms
  by (auto simp: generate_response_def retrieve_relevant_context_def Let_def
      format_context_nonempty split: if_splits sum.splits prod.splits)

lemma trigger_examples:
  "should_use_web_search ''latest stock price''"
  "\<not> should_use_web_search ''Summarize the document''"
  "\<not> should_use_web_search ''Q1 results''"
  "spec_lexical_trigger ''Q1 results''"
  "\<not> should_use_web_search ''revenue''"
  by code_simp+

text \<open>
  C6: the web search is performed exactly when it is enabled and the flag
  \<open>needs_web_search\<close> is set (a financial query with an empty retrieval context) or the
  query matches a trigger, letter case ignored. The decision is the code's condition
  (lemma \<open>web_search_decision\<close>) and the two examples of the specification hold
  (lemma \<open>trigger_examples\<close>), but the triggers \<open>Q1\<close> to \<open>Q4\<close> are compared, in upper
  case, with the lowered prompt and match nothing: \<open>Q1 results\<close> starts no web search.
  And since retrieval reports no query as financial when it found nothing, the flag is
  never set: \<open>revenue\<close> on the empty index starts no web search either.
\<close>

theorem web_search_decision_misses:
  "spec_lexical_trigger ''Q1 results''
   \<and> generate_response stable_argsort const_model tied_store ''Q1 results'' False True
       = Inr \<lparr>rag_context = [], rag_sources = [], needs_web_search = False,
              web_search_called = False\<rparr>
   \<and> spec_is_financial ''revenue''
   \<and> generate_response stable_argsort const_model empty_store ''revenue'' True True
       = Inr \<lparr>rag_context = [], rag_sources = [], needs_web_search = False,
              web_search_called = False\<rparr>"
proof -
  have "search stable_argsort const_model empty_store ''revenue'' 3 = Inr []"
    by (simp add: search_def empty_store_def)
  then have "retrieve_relevant_context stable_argsort const_model empty_store ''revenue'' 3 = Inr ([], False)"
    by (rule retrieve_without_results)
  then show ?thesis
    by (simp add: generate_response_def trigger_examples financial_examples)
qed


end
